theory Spec2Isabelle
  imports Complex_Main
begin

section \<open>Generalized Peukert battery model (Peukert Generalizado 1.0.py)\<close>

text \<open>
  The script fits the three parameters of the generalized Peukert equation
  (\<open>encontrar_parametros\<close>), evaluates the capacity at one discharge current
  (\<open>calculo_capacidade\<close>) and estimates the operating time with the classical Peukert law
  (\<open>peukert\<close>).

  Numbers. A binary64 value is a real number, \<open>+inf\<close>, \<open>-inf\<close> or \<open>nan\<close>
  (\<open>float64\<close> below). A result beyond the range of binary64 becomes infinite, a result
  below it becomes zero, and in between it is the exact real: rounding is not modelled,
  zero has no sign, and the \<open>RuntimeWarning\<close>s of numpy are not modelled. A number
  carries its Python type (\<open>num\<close>): a built-in \<open>float\<close> (an \<open>int\<close> is taken as the
  float it converts to) or a \<open>numpy.float64\<close>. The two differ where the built-in
  operators raise: the division by zero (\<open>ZeroDivisionError\<close>), the zero base under a
  negative exponent (\<open>ZeroDivisionError\<close>), the overflow of a power
  (\<open>OverflowError\<close>) and the negative base under a fractional exponent (a built-in
  \<open>complex\<close>); numpy returns \<open>inf\<close> or \<open>nan\<close> there. An operator with one numpy
  operand is numpy's. The plot (\<open>plotar\<close>) and the sequencing in \<open>main\<close> are not
  modelled.
\<close>

subsection \<open>The complementary error function\<close>

text \<open>
  Modelled from the spec: \<open>scipy.special.erfc\<close> is a library function, its code is not
  in the repository. The glossary of the specification fixes it as
  \<open>erfc(x) = 1 - erf(x)\<close>, with \<open>erf\<close> the error function of mathematics. Here
  \<open>erf x = 2 / sqrt pi * (x - x^3 / 3 + x^5 / 10 - x^7 / 42 + ...)\<close>, the Maclaurin
  series of \<open>2 / sqrt pi\<close> times the integral of \<open>exp (- t^2)\<close> from \<open>0\<close> to \<open>x\<close>, which
  converges for every \<open>x\<close>: \<open>erf_term x k\<close> is its \<open>k\<close>-th term and \<open>erf_coeff n\<close> the
  coefficient of \<open>x^n\<close>.
\<close>

definition erf_term :: "real \<Rightarrow> nat \<Rightarrow> real" where
  "erf_term x k = (- 1) ^ k * x ^ (2 * k + 1) / (fact k * real (2 * k + 1))"

definition erf_coeff :: "nat \<Rightarrow> real" where
  "erf_coeff n = (if even n then 0 else (- 1) ^ ((n - 1) div 2) / (fact ((n - 1) div 2) * real n))"

definition erf_series :: "real \<Rightarrow> real" where
  "erf_series x = (\<Sum>n. erf_coeff n * x ^ n)"

definition erf :: "real \<Rightarrow> real" where
  "erf x = 2 / sqrt pi * erf_series x"

definition erfc :: "real \<Rightarrow> real" where
  "erfc x = 1 - erf x"

text \<open>The size of the \<open>k\<close>-th term: the series alternates for \<open>x \<ge> 0\<close>.\<close>

definition erf_abs_term :: "real \<Rightarrow> nat \<Rightarrow> real" where
  "erf_abs_term x k = x ^ (2 * k + 1) / (fact k * real (2 * k + 1))"

subsection \<open>Python exceptions\<close>

datatype py_error = ZeroDivisionError | OverflowError | ValueError

text \<open>
  An exception ends the evaluation: \<open>and_then m f\<close> goes on with \<open>f\<close> when \<open>m\<close> has
  returned a value and keeps the exception of \<open>m\<close> otherwise.
\<close>

definition and_then :: "py_error + 'a \<Rightarrow> ('a \<Rightarrow> py_error + 'b) \<Rightarrow> py_error + 'b" where
  "and_then m f = (case m of Inl e \<Rightarrow> Inl e | Inr v \<Rightarrow> f v)"

text \<open>\<open>a / b\<close> on built-in floats whose quotient is in range (true division).\<close>

definition py_div :: "real \<Rightarrow> real \<Rightarrow> py_error + real" where
  "py_div a b = (if b = 0 then Inl ZeroDivisionError else Inr (a / b))"

subsection \<open>binary64 values and their operations\<close>

text \<open>
  \<open>overflow_threshold\<close> is the least real that rounds to infinity (half an ulp above
  the largest float \<open>float_max\<close>), \<open>underflow_threshold\<close> the largest that rounds to zero
  (half the least subnormal), \<open>float_min\<close> the least normal float. \<open>to_float\<close> is the
  binary64 result of an operation whose exact result is the given real. \<open>normal\<close> holds
  of the reals of the normal range, \<open>in_range\<close> of these and of zero.
\<close>

datatype float64 = Fin real | PInf | NInf | NaN

definition overflow_threshold :: real where
  "overflow_threshold = 2 ^ 1024 - 2 ^ 970"

definition underflow_threshold :: real where
  "underflow_threshold = 1 / 2 ^ 1075"

definition float_max :: real where
  "float_max = 2 ^ 1024 - 2 ^ 971"

definition float_min :: real where
  "float_min = 1 / 2 ^ 1022"

definition to_float :: "real \<Rightarrow> float64" where
  "to_float r =
     (if overflow_threshold \<le> r then PInf
      else if r \<le> - overflow_threshold then NInf
      else if \<bar>r\<bar> \<le> underflow_threshold then Fin 0
      else Fin r)"

definition normal :: "real \<Rightarrow> bool" where
  "normal r \<longleftrightarrow> float_min \<le> \<bar>r\<bar> \<and> \<bar>r\<bar> \<le> float_max"

definition in_range :: "real \<Rightarrow> bool" where
  "in_range r \<longleftrightarrow> r = 0 \<or> normal r"

text \<open>
  The IEEE operations, as C computes them for Python and for numpy alike: \<open>x / 0\<close> is
  infinite or \<open>nan\<close>, \<open>inf - inf\<close>, \<open>inf / inf\<close> and \<open>0 * inf\<close> are \<open>nan\<close>. \<open>f_erfc\<close>
  is \<open>erfc\<close> with its limits \<open>0\<close> and \<open>2\<close>. \<open>f_pow\<close> is C's \<open>pow\<close> with the special
  cases of C99 (Annex F): a zero exponent gives \<open>1\<close> for every base, a negative base
  keeps its sign under an odd integral exponent and gives \<open>nan\<close> under a fractional one.
\<close>

definition f_neg :: "float64 \<Rightarrow> float64" where
  "f_neg a = (case a of Fin x \<Rightarrow> Fin (- x) | PInf \<Rightarrow> NInf | NInf \<Rightarrow> PInf | NaN \<Rightarrow> NaN)"

definition f_abs :: "float64 \<Rightarrow> float64" where
  "f_abs a = (case a of Fin x \<Rightarrow> Fin \<bar>x\<bar> | PInf \<Rightarrow> PInf | NInf \<Rightarrow> PInf | NaN \<Rightarrow> NaN)"

definition f_sub :: "float64 \<Rightarrow> float64 \<Rightarrow> float64" where
  "f_sub a b =
     (case a of
        NaN \<Rightarrow> NaN
      | Fin x \<Rightarrow> (case b of Fin y \<Rightarrow> to_float (x - y) | PInf \<Rightarrow> NInf | NInf \<Rightarrow> PInf | NaN \<Rightarrow> NaN)
      | PInf \<Rightarrow> (case b of PInf \<Rightarrow> NaN | NaN \<Rightarrow> NaN | _ \<Rightarrow> PInf)
      | NInf \<Rightarrow> (case b of NInf \<Rightarrow> NaN | NaN \<Rightarrow> NaN | _ \<Rightarrow> NInf))"

definition f_mul :: "float64 \<Rightarrow> float64 \<Rightarrow> float64" where
  "f_mul a b =
     (case a of
        NaN \<Rightarrow> NaN
      | Fin x \<Rightarrow>
          (case b of
             Fin y \<Rightarrow> to_float (x * y)
           | PInf \<Rightarrow> (if 0 < x then PInf else if x < 0 then NInf else NaN)
           | NInf \<Rightarrow> (if 0 < x then NInf else if x < 0 then PInf else NaN)
           | NaN \<Rightarrow> NaN)
      | PInf \<Rightarrow>
          (case b of
             Fin y \<Rightarrow> (if 0 < y then PInf else if y < 0 then NInf else NaN)
           | PInf \<Rightarrow> PInf | NInf \<Rightarrow> NInf | NaN \<Rightarrow> NaN)
      | NInf \<Rightarrow>
          (case b of
             Fin y \<Rightarrow> (if 0 < y then NInf else if y < 0 then PInf else NaN)
           | PInf \<Rightarrow> NInf | NInf \<Rightarrow> PInf | NaN \<Rightarrow> NaN))"

definition f_div :: "float64 \<Rightarrow> float64 \<Rightarrow> float64" where
  "f_div a b =
     (case a of
        NaN \<Rightarrow> NaN
      | Fin x \<Rightarrow>
          (case b of
             Fin y \<Rightarrow>
               (if y = 0 then (if 0 < x then PInf else if x < 0 then NInf else NaN)
                else to_float (x / y))
           | PInf \<Rightarrow> Fin 0 | NInf \<Rightarrow> Fin 0 | NaN \<Rightarrow> NaN)
      | PInf \<Rightarrow> (case b of Fin y \<Rightarrow> (if 0 \<le> y then PInf else NInf) | _ \<Rightarrow> NaN)
      | NInf \<Rightarrow> (case b of Fin y \<Rightarrow> (if 0 \<le> y then NInf else PInf) | _ \<Rightarrow> NaN))"

definition f_erfc :: "float64 \<Rightarrow> float64" where
  "f_erfc a = (case a of Fin x \<Rightarrow> to_float (erfc x) | PInf \<Rightarrow> Fin 0 | NInf \<Rightarrow> Fin 2 | NaN \<Rightarrow> NaN)"

definition integral :: "real \<Rightarrow> bool" where
  "integral y \<longleftrightarrow> y = of_int \<lfloor>y\<rfloor>"

definition f_pow :: "float64 \<Rightarrow> float64 \<Rightarrow> float64" where
  "f_pow a b =
     (case b of
        NaN \<Rightarrow> (if a = Fin 1 then Fin 1 else NaN)
      | Fin y \<Rightarrow>
          (if y = 0 then Fin 1
           else case a of
             NaN \<Rightarrow> NaN
           | Fin x \<Rightarrow>
               (if x = 0 then (if y < 0 then PInf else Fin 0)
                else if 0 < x then to_float (x powr y)
                else if integral y then to_float ((if even \<lfloor>y\<rfloor> then 1 else - 1) * (- x) powr y)
                else NaN)
           | PInf \<Rightarrow> (if y < 0 then Fin 0 else PInf)
           | NInf \<Rightarrow> (if y < 0 then Fin 0 else if integral y \<and> odd \<lfloor>y\<rfloor> then NInf else PInf))
      | PInf \<Rightarrow>
          (case a of
             NaN \<Rightarrow> NaN
           | Fin x \<Rightarrow> (if \<bar>x\<bar> = 1 then Fin 1 else if \<bar>x\<bar> < 1 then Fin 0 else PInf)
           | _ \<Rightarrow> PInf)
      | NInf \<Rightarrow>
          (case a of
             NaN \<Rightarrow> NaN
           | Fin x \<Rightarrow> (if \<bar>x\<bar> = 1 then Fin 1 else if \<bar>x\<bar> < 1 then PInf else Fin 0)
           | _ \<Rightarrow> Fin 0))"

subsection \<open>Numbers that carry their Python type\<close>

text \<open>
  \<open>Py v\<close> is a built-in \<open>float\<close>, \<open>Np v\<close> a \<open>numpy.float64\<close>. \<open>numpy.float64\<close> is a
  subclass of \<open>float\<close> with operators of its own, so \<open>-\<close>, \<open>*\<close>, \<open>/\<close> and \<open>**\<close> are the
  built-in ones only between two built-in operands; the built-in \<open>/\<close> raises on a zero
  divisor. \<open>scipy.special.erfc\<close> returns a \<open>numpy.float64\<close> for either kind of argument.
\<close>

datatype num = Py float64 | Np float64

definition val :: "num \<Rightarrow> float64" where
  "val a = (case a of Py v \<Rightarrow> v | Np v \<Rightarrow> v)"

definition is_py :: "num \<Rightarrow> bool" where
  "is_py a = (case a of Py v \<Rightarrow> True | Np v \<Rightarrow> False)"

definition num_neg :: "num \<Rightarrow> num" where
  "num_neg a = (case a of Py v \<Rightarrow> Py (f_neg v) | Np v \<Rightarrow> Np (f_neg v))"

definition num_sub :: "num \<Rightarrow> num \<Rightarrow> num" where
  "num_sub a b =
     (if is_py a \<and> is_py b then Py (f_sub (val a) (val b)) else Np (f_sub (val a) (val b)))"

definition num_mul :: "num \<Rightarrow> num \<Rightarrow> num" where
  "num_mul a b =
     (if is_py a \<and> is_py b then Py (f_mul (val a) (val b)) else Np (f_mul (val a) (val b)))"

definition num_truediv :: "num \<Rightarrow> num \<Rightarrow> py_error + num" where
  "num_truediv a b =
     (if is_py a \<and> is_py b
      then (if val b = Fin 0 then Inl ZeroDivisionError else Inr (Py (f_div (val a) (val b))))
      else Inr (Np (f_div (val a) (val b))))"

definition sp_erfc :: "num \<Rightarrow> num" where
  "sp_erfc a = Np (f_erfc (val a))"

text \<open>
  The value of a power is a number or a complex number. \<open>PyC m\<close> is a built-in
  \<open>complex\<close> of modulus \<open>m\<close> (its argument is not followed), \<open>NpC\<close> a numpy complex
  number (not followed: numpy raises nothing on it).

  \<open>py_pow\<close> is \<open>x ** y\<close> on built-in floats, in the order of CPython's \<open>float_pow\<close>:
  the zero exponent, the zero base (which raises under a negative exponent), the
  negative base under a fractional exponent (handed to \<open>complex\<close>, whose power raises
  \<open>OverflowError\<close> when the modulus overflows), then C's \<open>pow\<close>, whose overflow from
  finite operands raises \<open>OverflowError\<close>. With an infinite or \<open>nan\<close> operand nothing is
  raised.
\<close>

datatype pyval = Real num | PyC float64 | NpC

definition py_pow :: "float64 \<Rightarrow> float64 \<Rightarrow> py_error + pyval" where
  "py_pow a b =
     (case (a, b) of
        (Fin x, Fin y) \<Rightarrow>
          (if y = 0 then Inr (Real (Py (Fin 1)))
           else if x = 0 then (if y < 0 then Inl ZeroDivisionError else Inr (Real (Py (Fin 0))))
           else if x < 0 \<and> \<not> integral y
             then (case to_float ((- x) powr y) of PInf \<Rightarrow> Inl OverflowError | m \<Rightarrow> Inr (PyC m))
           else (case f_pow (Fin x) (Fin y) of
                   PInf \<Rightarrow> Inl OverflowError
                 | NInf \<Rightarrow> Inl OverflowError
                 | r \<Rightarrow> Inr (Real (Py r))))
      | _ \<Rightarrow> Inr (Real (Py (f_pow a b))))"

definition num_pow :: "num \<Rightarrow> num \<Rightarrow> py_error + pyval" where
  "num_pow a b =
     (if is_py a \<and> is_py b then py_pow (val a) (val b)
      else Inr (Real (Np (f_pow (val a) (val b)))))"

text \<open>
  \<open>val_mul\<close> is \<open>a * p\<close> and \<open>val_truediv\<close> is \<open>p / d\<close> where \<open>p\<close> and \<open>d\<close> are values of
  powers. A built-in division by a zero float or by a zero complex number raises
  \<open>ZeroDivisionError\<close>; with a numpy operand nothing is raised.
\<close>

definition val_mul :: "num \<Rightarrow> pyval \<Rightarrow> pyval" where
  "val_mul a p =
     (case p of
        Real b \<Rightarrow> Real (num_mul a b)
      | PyC m \<Rightarrow> (if is_py a then PyC (f_mul (f_abs (val a)) m) else NpC)
      | NpC \<Rightarrow> NpC)"

definition val_truediv :: "pyval \<Rightarrow> pyval \<Rightarrow> py_error + pyval" where
  "val_truediv p d =
     (case p of
        Real a \<Rightarrow>
          (case d of
             Real b \<Rightarrow> (case num_truediv a b of Inl e \<Rightarrow> Inl e | Inr q \<Rightarrow> Inr (Real q))
           | PyC m \<Rightarrow>
               (if is_py a
                then (if m = Fin 0 then Inl ZeroDivisionError else Inr (PyC (f_div (f_abs (val a)) m)))
                else Inr NpC)
           | NpC \<Rightarrow> Inr NpC)
      | PyC k \<Rightarrow>
          (case d of
             Real b \<Rightarrow>
               (if is_py b
                then (if val b = Fin 0 then Inl ZeroDivisionError else Inr (PyC (f_div k (f_abs (val b)))))
                else Inr NpC)
           | PyC m \<Rightarrow> (if m = Fin 0 then Inl ZeroDivisionError else Inr (PyC (f_div k m)))
           | NpC \<Rightarrow> Inr NpC)
      | NpC \<Rightarrow> Inr NpC)"

subsection \<open>encontrar\_parametros\<close>

text \<open>
  The inner functions \<open>modelo\<close> and \<open>residuals\<close> work on numpy arrays: the parameters are
  unpacked from an array, the currents are an array, so every operation is numpy's and
  raises nothing: for \<open>n = 0\<close> the quotient \<open>1 / n\<close> is infinite and the element is
  \<open>Cm\<close>, for \<open>ik = 0\<close> and a positive current the element is \<open>0\<close> (lemmas
  \<open>modelo_zero_exponent\<close>, \<open>modelo_zero_ik\<close>). The parameters and currents are finite
  here. The subtraction of two arrays follows numpy's broadcasting of one-dimensional
  shapes: equal lengths, or one of them of length one, and a \<open>ValueError\<close> otherwise.
\<close>

type_synonym params = "real \<times> real \<times> real"

definition modelo :: "params \<Rightarrow> real list \<Rightarrow> float64 list" where
  "modelo params i =
     (case params of (Cm, n, ik) \<Rightarrow>
        map (\<lambda>x. f_mul (f_div (Fin Cm) (f_erfc (f_neg (Fin n))))
                   (f_erfc (f_div (f_sub (f_div (Fin x) (Fin ik)) (Fin 1)) (f_div (Fin 1) (Fin n))))) i)"

definition np_sub :: "float64 list \<Rightarrow> real list \<Rightarrow> py_error + float64 list" where
  "np_sub xs ys =
     (if length xs = length ys then Inr (map2 (\<lambda>x y. f_sub x (Fin y)) xs ys)
      else if length ys = 1 then Inr (map (\<lambda>x. f_sub x (Fin (hd ys))) xs)
      else if length xs = 1 then Inr (map (\<lambda>y. f_sub (hd xs) (Fin y)) ys)
      else Inl ValueError)"

definition residuals :: "params \<Rightarrow> real list \<Rightarrow> real list \<Rightarrow> py_error + float64 list" where
  "residuals params i C_observado =
     (let C_estimado = modelo params i
      in np_sub C_estimado C_observado)"

text \<open>
  \<open>scipy.optimize.least_squares\<close> is a library function too (MINPACK's
  Levenberg-Marquardt iteration in binary64, chosen by \<open>method='lm'\<close>). It is a
  parameter of the model: a function of the residual function, the initial guess and the
  extra arguments \<open>args=(i, C_observado)\<close>, with any outcome type \<open>'r\<close> (the
  \<open>OptimizeResult\<close>, or the exception it raises). The body of
  \<open>encontrar_parametros\<close> assigns \<open>i\<close> and \<open>C_observado\<close> anew before it uses them, and
  so does the \<open>let\<close> here. The four \<open>print\<close> calls that follow the solver show
  \<open>resultado\<close> and leave it as it is; \<open>resultado\<close> is returned.
\<close>

definition encontrar_parametros ::
  "((params \<Rightarrow> real list \<Rightarrow> real list \<Rightarrow> py_error + float64 list)
      \<Rightarrow> params \<Rightarrow> real list \<times> real list \<Rightarrow> 'r)
    \<Rightarrow> real list \<Rightarrow> real list \<Rightarrow> 'r" where
  "encontrar_parametros least_squares C_observado i =
     (let Cm_parametro = 61.285;
          i = map (\<lambda>c. c * Cm_parametro) [10, 7.5, 5];
          C_observado = [15.054043042538622, 25.81989538243598, 38.59230288240648];
          params_iniciais = (100, 0.5, 300);
          resultado = least_squares residuals params_iniciais (i, C_observado)
      in resultado)"

subsection \<open>calculo\_capacidade\<close>

text \<open>
  \<open>calculo_capacidade\<close> is the function on built-in floats, as the docstring declares
  its arguments, with every intermediate result in range, so that a float is a real
  number. \<open>erfc\<close> returns a numpy scalar, so the first quotient \<open>Cm / erfc(-n)\<close> is a
  numpy division and raises nothing; its divisor is at least \<open>1\<close> for \<open>n \<ge> 0\<close> (lemma
  \<open>erfc_minus_ge_one\<close>). The quotients \<open>i / ik\<close>, \<open>1 / n\<close> and the outer one are
  built-in divisions, evaluated in this order.
\<close>

definition calculo_capacidade :: "real \<Rightarrow> real \<Rightarrow> real \<Rightarrow> real \<Rightarrow> py_error + real" where
  "calculo_capacidade Cm i ik n =
     (let a = Cm / erfc (- n)
      in and_then (py_div i ik) (\<lambda>q.
         and_then (py_div 1 n) (\<lambda>r.
         and_then (py_div (q - 1) r) (\<lambda>z.
         Inr (a * erfc z)))))"

text \<open>
  \<open>calculo_capacidade_num\<close> is the same body on numbers that carry their type, with
  the range and the special values of binary64. At the call in \<open>main\<close> the arguments
  \<open>Cm\<close>, \<open>ik\<close> and \<open>n\<close> are elements of the solver's array, that is \<open>numpy.float64\<close>,
  and \<open>i\<close> is a built-in float; an array \<open>i\<close> behaves elementwise as a
  \<open>numpy.float64\<close>. Where \<open>ik\<close> is not zero, \<open>n\<close> is positive and every intermediate
  result is in range (\<open>capacidade_in_range\<close>), the two definitions return the same
  number for every typing (lemma \<open>calculo_capacidade_num_agrees\<close>).
\<close>

definition calculo_capacidade_num :: "num \<Rightarrow> num \<Rightarrow> num \<Rightarrow> num \<Rightarrow> py_error + num" where
  "calculo_capacidade_num Cm i ik n =
     and_then (num_truediv Cm (sp_erfc (num_neg n))) (\<lambda>a.
     and_then (num_truediv i ik) (\<lambda>q.
     and_then (num_truediv (Py (Fin 1)) n) (\<lambda>r.
     and_then (num_truediv (num_sub q (Py (Fin 1))) r) (\<lambda>z.
     Inr (num_mul a (sp_erfc z))))))"

definition capacidade_in_range :: "real \<Rightarrow> real \<Rightarrow> real \<Rightarrow> real \<Rightarrow> bool" where
  "capacidade_in_range c x k y \<longleftrightarrow>
     in_range (erfc (- y)) \<and> in_range (c / erfc (- y)) \<and> in_range (x / k) \<and> in_range (x / k - 1)
     \<and> in_range (1 / y) \<and> in_range ((x / k - 1) / (1 / y))
     \<and> in_range (erfc ((x / k - 1) / (1 / y)))
     \<and> in_range ((c / erfc (- y)) * erfc ((x / k - 1) / (1 / y)))"

subsection \<open>peukert\<close>

text \<open>
  \<open>R = 1/R\<close> replaces the C-rate by its inverse; then \<open>t = (R*(C/R)**n) / (i**n)\<close>, the
  left operand of the last division first. The calls in the script pass a
  \<open>numpy.float64\<close> for \<open>i\<close> (in \<open>plotar\<close>) or for \<open>n\<close> (in \<open>main\<close>) and built-in
  numbers for the rest. \<open>peukert_in_range\<close> says that every intermediate result is in
  the normal range of binary64.
\<close>

definition peukert :: "num \<Rightarrow> num \<Rightarrow> num \<Rightarrow> num \<Rightarrow> py_error + pyval" where
  "peukert n R i C =
     and_then (num_truediv (Py (Fin 1)) R) (\<lambda>R'.
     and_then (num_truediv C R') (\<lambda>q.
     and_then (num_pow q n) (\<lambda>p.
     and_then (num_pow i n) (\<lambda>d.
     val_truediv (val_mul R' p) d))))"


section \<open>Properties of the error function\<close>

lemma erf_term_summable: "summable (erf_term x)"
proof (rule summable_comparison_test')
  show "summable (\<lambda>k. \<bar>x\<bar> * (inverse (fact k) * (x\<^sup>2) ^ k))"
    by (intro summable_mult summable_exp)
next
  fix k :: nat
  assume "k \<ge> 0"
  have pw: "\<bar>x\<bar> ^ (2 * k + 1) = \<bar>x\<bar> * (x\<^sup>2) ^ k"
    by (simp add: power_mult)
  have "norm (erf_term x k) = \<bar>x\<bar> ^ (2 * k + 1) / (fact k * real (2 * k + 1))"
    by (simp add: erf_term_def abs_mult power_abs)
  also have "\<dots> = \<bar>x\<bar> * (inverse (fact k) * (x\<^sup>2) ^ k) / real (2 * k + 1)"
    unfolding pw by (simp add: divide_inverse)
  also have "\<dots> \<le> \<bar>x\<bar> * (inverse (fact k) * (x\<^sup>2) ^ k) / 1"
    by (intro divide_left_mono mult_nonneg_nonneg) simp_all
  finally show "norm (erf_term x k) \<le> \<bar>x\<bar> * (inverse (fact k) * (x\<^sup>2) ^ k)"
    by simp
qed

lemma erf_coeff_term: "erf_coeff n * x ^ n = (if even n then 0 else erf_term x ((n - 1) div 2))"
proof (cases "even n")
  case True
  then show ?thesis by (simp add: erf_coeff_def)
next
  case False
  then obtain k where "n = 2 * k + 1" by (auto elim: oddE)
  then show ?thesis by (simp add: erf_coeff_def erf_term_def)
qed

lemma erf_coeff_sums: "(\<lambda>n. erf_coeff n * x ^ n) sums (\<Sum>k. erf_term x k)"
  unfolding erf_coeff_term
  by (rule sums_if') (rule summable_sums [OF erf_term_summable])

lemma erf_series_eq: "erf_series x = (\<Sum>k. erf_term x k)"
  unfolding erf_series_def by (rule sums_unique [symmetric]) (rule erf_coeff_sums)

lemma erf_coeff_summable: "summable (\<lambda>n. erf_coeff n * x ^ n)"
  using erf_coeff_sums by (rule sums_summable)

lemma diffs_erf_coeff:
  "diffs erf_coeff n = (if even n then (- 1) ^ (n div 2) / fact (n div 2) else 0)"
  by (simp add: diffs_def erf_coeff_def)

lemma diffs_erf_coeff_sums: "(\<lambda>n. diffs erf_coeff n * x ^ n) sums exp (- (x\<^sup>2))"
proof -
  have "(\<lambda>k. (- (x\<^sup>2)) ^ k /\<^sub>R fact k) sums exp (- (x\<^sup>2))"
    by (rule exp_converges)
  from sums_if [OF sums_zero this]
  have "(\<lambda>n. if even n then (- (x\<^sup>2)) ^ (n div 2) /\<^sub>R fact (n div 2) else 0) sums exp (- (x\<^sup>2))"
    by simp
  also have "(\<lambda>n. if even n then (- (x\<^sup>2)) ^ (n div 2) /\<^sub>R fact (n div 2) else 0)
      = (\<lambda>n. diffs erf_coeff n * x ^ n)"
  proof
    fix n :: nat
    show "(if even n then (- (x\<^sup>2)) ^ (n div 2) /\<^sub>R fact (n div 2) else 0) = diffs erf_coeff n * x ^ n"
    proof (cases "even n")
      case True
      then obtain k where n: "n = 2 * k" by (auto elim: evenE)
      have "x ^ (2 * k) = (x\<^sup>2) ^ k"
        by (rule power_mult)
      then show ?thesis
        unfolding n by (simp add: diffs_erf_coeff power_minus [of "x\<^sup>2"] divide_inverse)
    next
      case False
      then show ?thesis by (simp add: diffs_erf_coeff)
    qed
  qed
  finally show ?thesis .
qed

lemma DERIV_erf_series: "DERIV erf_series x :> exp (- (x\<^sup>2))"
proof -
  have "DERIV (\<lambda>x. \<Sum>n. erf_coeff n * x ^ n) x :> (\<Sum>n. diffs erf_coeff n * x ^ n)"
    by (rule termdiffs_strong_converges_everywhere) (rule erf_coeff_summable)
  moreover have "(\<Sum>n. diffs erf_coeff n * x ^ n) = exp (- (x\<^sup>2))"
    by (rule sums_unique [symmetric]) (rule diffs_erf_coeff_sums)
  moreover have "erf_series = (\<lambda>x. \<Sum>n. erf_coeff n * x ^ n)"
    by (rule ext) (simp add: erf_series_def)
  ultimately show ?thesis by simp
qed

lemma DERIV_erf: "DERIV erf x :> 2 / sqrt pi * exp (- (x\<^sup>2))"
proof -
  have "DERIV (\<lambda>x. 2 / sqrt pi * erf_series x) x :> 2 / sqrt pi * exp (- (x\<^sup>2))"
    by (rule DERIV_cmult) (rule DERIV_erf_series)
  moreover have "erf = (\<lambda>x. 2 / sqrt pi * erf_series x)"
    by (rule ext) (simp add: erf_def)
  ultimately show ?thesis by simp
qed

lemma erf_strict_mono:
  assumes "x < y"
  shows "erf x < erf y"
proof (rule DERIV_pos_imp_increasing [of x y erf, OF assms])
  fix t :: real
  have "DERIV erf t :> 2 / sqrt pi * exp (- (t\<^sup>2))"
    by (rule DERIV_erf)
  moreover have "0 < 2 / sqrt pi * exp (- (t\<^sup>2))"
    by simp
  ultimately show "\<exists>d. DERIV erf t :> d \<and> 0 < d"
    by blast
qed

lemma erf_zero: "erf 0 = 0"
proof -
  have "erf_term 0 k = 0" for k by (simp add: erf_term_def)
  then show ?thesis by (simp add: erf_def erf_series_eq)
qed

lemma erf_minus: "erf (- x) = - erf x"
proof -
  have "erf_term (- x) k = - erf_term x k" for k
    by (simp add: erf_term_def)
  then have "(\<Sum>k. erf_term (- x) k) = - (\<Sum>k. erf_term x k)"
    by (simp add: suminf_minus [OF erf_term_summable])
  then show ?thesis by (simp add: erf_def erf_series_eq)
qed

lemma erfc_zero: "erfc 0 = 1"
  by (simp add: erfc_def erf_zero)



lemma erfc_minus_gt_one: "0 < n \<Longrightarrow> 1 < erfc (- n)"
  using erf_strict_mono [of 0 n] by (simp add: erfc_def erf_minus erf_zero)

lemma erfc_minus_ge_one: "0 \<le> n \<Longrightarrow> 1 \<le> erfc (- n)"
  using erfc_minus_gt_one [of n] by (cases "n = 0") (auto simp: erfc_zero)

subsection \<open>Partial sums enclose the series\<close>

text \<open>
  For \<open>0 \<le> x \<le> 1\<close> the terms decrease in size and alternate in sign, so an even
  number of them is a lower bound of the sum and an odd number an upper bound.
\<close>

lemma erf_term_alt: "erf_term x k = (- 1) ^ k * erf_abs_term x k"
  by (simp add: erf_term_def erf_abs_term_def)

lemma erf_abs_term_nonneg: "0 \<le> x \<Longrightarrow> 0 \<le> erf_abs_term x k"
  by (simp add: erf_abs_term_def)

lemma erf_abs_term_decreasing:
  assumes "0 \<le> x" and "x \<le> 1"
  shows "erf_abs_term x (Suc k) \<le> erf_abs_term x k"
  unfolding erf_abs_term_def
proof (rule frac_le)
  show "0 \<le> x ^ (2 * k + 1)"
    using assms by simp
  show "x ^ (2 * Suc k + 1) \<le> x ^ (2 * k + 1)"
    using assms by (intro power_decreasing) simp_all
  show "0 < fact k * real (2 * k + 1)"
    by simp
  have "fact k * real (2 * k + 1) \<le> fact (Suc k) * real (2 * k + 1)"
    by (simp add: mult_right_mono)
  also have "\<dots> \<le> fact (Suc k) * real (2 * Suc k + 1)"
    by (intro mult_left_mono) simp_all
  finally show "fact k * real (2 * k + 1) \<le> fact (Suc k) * real (2 * Suc k + 1)" .
qed

lemma erf_abs_term_tendsto_zero:
  assumes "0 \<le> x"
  shows "erf_abs_term x \<longlonglongrightarrow> 0"
proof -
  have "erf_term x \<longlonglongrightarrow> 0"
    by (rule summable_LIMSEQ_zero) (rule erf_term_summable)
  then have "(\<lambda>k. \<bar>erf_term x k\<bar>) \<longlonglongrightarrow> 0"
    by (simp add: tendsto_rabs_zero_iff)
  moreover have "\<bar>erf_term x k\<bar> = erf_abs_term x k" for k
    using erf_abs_term_nonneg [OF assms, of k] by (simp add: erf_term_alt abs_mult)
  ultimately show ?thesis
    by simp
qed

lemma erf_series_lower:
  assumes "0 \<le> x" and "x \<le> 1"
  shows "(\<Sum>k<2 * m. erf_term x k) \<le> erf_series x"
proof -
  have "(\<Sum>k<2 * m. (- 1) ^ k * erf_abs_term x k) \<le> (\<Sum>k. (- 1) ^ k * erf_abs_term x k)"
    using assms
    by (intro summable_Leibniz'(2) erf_abs_term_tendsto_zero erf_abs_term_nonneg
        erf_abs_term_decreasing)
  then show ?thesis
    by (simp add: erf_series_eq erf_term_alt)
qed

lemma erf_series_upper:
  assumes "0 \<le> x" and "x \<le> 1"
  shows "erf_series x \<le> (\<Sum>k<2 * m + 1. erf_term x k)"
proof -
  have "(\<Sum>k. (- 1) ^ k * erf_abs_term x k) \<le> (\<Sum>k<2 * m + 1. (- 1) ^ k * erf_abs_term x k)"
    using assms
    by (intro summable_Leibniz'(4) erf_abs_term_tendsto_zero erf_abs_term_nonneg
        erf_abs_term_decreasing)
  then show ?thesis
    by (simp add: erf_series_eq erf_term_alt)
qed

lemma erf_series_lower6:
  assumes "0 \<le> x" and "x \<le> 1"
  shows "x - x^3 / 3 + x^5 / 10 - x^7 / 42 + x^9 / 216 - x^11 / 1320 \<le> erf_series x"
proof -
  have "(\<Sum>k<2 * 3. erf_term x k) = x - x^3 / 3 + x^5 / 10 - x^7 / 42 + x^9 / 216 - x^11 / 1320"
    by (simp add: erf_term_def eval_nat_numeral)
  with erf_series_lower [OF assms, of 3] show ?thesis
    by simp
qed

lemma erf_series_upper7:
  assumes "0 \<le> x" and "x \<le> 1"
  shows "erf_series x \<le> x - x^3 / 3 + x^5 / 10 - x^7 / 42 + x^9 / 216 - x^11 / 1320 + x^13 / 9360"
proof -
  have "(\<Sum>k<2 * 3 + 1. erf_term x k) = x - x^3 / 3 + x^5 / 10 - x^7 / 42 + x^9 / 216 - x^11 / 1320 + x^13 / 9360"
    by (simp add: erf_term_def eval_nat_numeral)
  with erf_series_upper [OF assms, of 3] show ?thesis
    by simp
qed

lemma erf_series_lower2:
  assumes "0 \<le> x" and "x \<le> 1"
  shows "x - x^3 / 3 \<le> erf_series x"
proof -
  have "(\<Sum>k<2 * 1. erf_term x k) = x - x^3 / 3"
    by (simp add: erf_term_def eval_nat_numeral)
  with erf_series_lower [OF assms, of 1] show ?thesis
    by simp
qed

lemma erf_series_upper3:
  assumes "0 \<le> x" and "x \<le> 1"
  shows "erf_series x \<le> x - x^3 / 3 + x^5 / 10"
proof -
  have "(\<Sum>k<2 * 1 + 1. erf_term x k) = x - x^3 / 3 + x^5 / 10"
    by (simp add: erf_term_def eval_nat_numeral)
  with erf_series_upper [OF assms, of 1] show ?thesis
    by simp
qed

section \<open>Numerical enclosures\<close>

lemma abs_diff_le:
  fixes c m e :: real
  assumes "m - e \<le> c" and "c \<le> m + e"
  shows "\<bar>c - m\<bar> \<le> e"
  using assms by linarith

subsection \<open>\<open>pi\<close> from Machin's formula\<close>

lemma arctan_series_bounds:
  assumes "0 < x" and "x \<le> 1"
  shows "(\<Sum>k<2 * m. (- 1) ^ k * (1 / real (k * 2 + 1) * x ^ (k * 2 + 1))) \<le> arctan x"
    and "arctan x \<le> (\<Sum>k<2 * m + 1. (- 1) ^ k * (1 / real (k * 2 + 1) * x ^ (k * 2 + 1)))"
proof -
  have x: "\<bar>x\<bar> \<le> 1"
    using assms by simp
  let ?a = "\<lambda>k. 1 / real (k * 2 + 1) * x ^ (k * 2 + 1)"
  have "0 < ?a 0"
    using assms by simp
  with summable_Leibniz(2) [OF zeroseq_arctan_series [OF x] monoseq_arctan_series [OF x]]
  have "(\<Sum>k. (- 1) ^ k * ?a k) \<in> {(\<Sum>k<2 * m. (- 1) ^ k * ?a k) .. (\<Sum>k<2 * m + 1. (- 1) ^ k * ?a k)}"
    by blast
  then show "(\<Sum>k<2 * m. (- 1) ^ k * ?a k) \<le> arctan x"
    and "arctan x \<le> (\<Sum>k<2 * m + 1. (- 1) ^ k * ?a k)"
    by (simp_all add: arctan_series [OF x])
qed

lemma arctan_fifth_bounds:
  "1 / 5 - (1 / 5) ^ 3 / 3 + (1 / 5) ^ 5 / 5 - (1 / 5) ^ 7 / 7 \<le> arctan (1 / 5)"
  "arctan (1 / 5) \<le> 1 / 5 - (1 / 5) ^ 3 / 3 + (1 / 5) ^ 5 / 5"
  using arctan_series_bounds(1) [of "1 / 5" 2] arctan_series_bounds(2) [of "1 / 5" 1]
  by (simp_all add: eval_nat_numeral)

lemma arctan_239_bounds:
  "1 / 239 - (1 / 239) ^ 3 / 3 \<le> arctan (1 / 239)"
  "arctan (1 / 239) \<le> 1 / 239"
  using arctan_series_bounds(1) [of "1 / 239" 1] arctan_series_bounds(2) [of "1 / 239" 0]
  by (simp_all add: eval_nat_numeral)

lemma machin_mono:
  fixes a b x y :: real
  assumes "a \<le> x" and "y \<le> b"
  shows "16 * a - 4 * b \<le> 16 * x - 4 * y"
  using assms by linarith

lemma pi_bounds: "3.14159 \<le> pi" "pi \<le> 3.14163"
proof -
  have pi_eq: "pi = 16 * arctan (1 / 5) - 4 * arctan (1 / 239)"
    using machin by simp
  have "3.14159 \<le> 16 * (1 / 5 - (1 / 5) ^ 3 / 3 + (1 / 5) ^ 5 / 5 - (1 / 5) ^ 7 / 7) - 4 * (1 / 239 :: real)"
    by (simp add: power_divide)
  also have "\<dots> \<le> 16 * arctan (1 / 5) - 4 * arctan (1 / 239)"
    by (rule machin_mono [OF arctan_fifth_bounds(1) arctan_239_bounds(2)])
  finally show "3.14159 \<le> pi"
    by (simp only: pi_eq)
  have "16 * arctan (1 / 5) - 4 * arctan (1 / 239)
      \<le> 16 * (1 / 5 - (1 / 5) ^ 3 / 3 + (1 / 5) ^ 5 / 5) - 4 * (1 / 239 - (1 / 239) ^ 3 / 3 :: real)"
    by (rule machin_mono [OF arctan_fifth_bounds(2) arctan_239_bounds(1)])
  also have "\<dots> \<le> 3.14163"
    by (simp add: power_divide)
  finally show "pi \<le> 3.14163"
    by (simp only: pi_eq)
qed

lemma sqrt_pi_bounds: "1.77245 \<le> sqrt pi" "sqrt pi \<le> 1.77247"
proof -
  have "(1.77245 :: real)\<^sup>2 \<le> 3.14159"
    by (simp add: power2_eq_square)
  also note pi_bounds(1)
  finally show "1.77245 \<le> sqrt pi"
    by (rule real_le_rsqrt)
  note pi_bounds(2)
  also have "(3.14163 :: real) \<le> 1.77247\<^sup>2"
    by (simp add: power2_eq_square)
  finally show "sqrt pi \<le> 1.77247"
    by (intro real_le_lsqrt) simp_all
qed

subsection \<open>The error function at the two arguments of the docstring example\<close>

lemma erf_enclosure:
  assumes "0 \<le> lo" and "lo \<le> erf_series x" and "erf_series x \<le> hi"
  shows "2 / 1.77247 * lo \<le> erf x" and "erf x \<le> 2 / 1.77245 * hi"
proof -
  have pos: "0 < sqrt pi"
    by simp
  have "2 / 1.77247 \<le> 2 / sqrt pi"
    using sqrt_pi_bounds(2) pos by (intro divide_left_mono) simp_all
  then have "2 / 1.77247 * lo \<le> 2 / sqrt pi * erf_series x"
    using assms by (intro mult_mono) simp_all
  then show "2 / 1.77247 * lo \<le> erf x"
    by (simp only: erf_def)
  have "2 / sqrt pi \<le> 2 / 1.77245"
    using sqrt_pi_bounds(1) by (intro divide_left_mono) simp_all
  moreover have "0 \<le> erf_series x"
    using assms by simp
  ultimately have "2 / sqrt pi * erf_series x \<le> 2 / 1.77245 * hi"
    using assms by (intro mult_mono) simp_all
  then show "erf x \<le> 2 / 1.77245 * hi"
    by (simp only: erf_def)
qed

lemma erf_series_at_n: "0.570945 \<le> erf_series 0.653" "erf_series 0.653 \<le> 0.570947"
proof -
  have "(0.570945 :: real) \<le> 0.653 - 0.653^3 / 3 + 0.653^5 / 10 - 0.653^7 / 42 + 0.653^9 / 216 - 0.653^11 / 1320"
    by (simp add: power_divide)
  also have "\<dots> \<le> erf_series 0.653"
    by (rule erf_series_lower6) simp_all
  finally show "0.570945 \<le> erf_series 0.653" .
  have "erf_series 0.653 \<le> 0.653 - 0.653^3 / 3 + 0.653^5 / 10 - 0.653^7 / 42 + 0.653^9 / 216 - 0.653^11 / 1320 + 0.653^13 / 9360"
    by (rule erf_series_upper7) simp_all
  also have "\<dots> \<le> (0.570947 :: real)"
    by (simp add: power_divide)
  finally show "erf_series 0.653 \<le> 0.570947" .
qed

lemma erf_at_n: "0.64423 \<le> erf 0.653" "erf 0.653 \<le> 0.64425"
proof -
  have "(0.64423 :: real) \<le> 2 / 1.77247 * 0.570945"
    by simp
  also have "\<dots> \<le> erf 0.653"
    by (rule erf_enclosure(1) [OF _ erf_series_at_n]) simp
  finally show "0.64423 \<le> erf 0.653" .
  have "erf 0.653 \<le> 2 / 1.77245 * 0.570947"
    by (rule erf_enclosure(2) [OF _ erf_series_at_n]) simp
  also have "\<dots> \<le> (0.64425 :: real)"
    by simp
  finally show "erf 0.653 \<le> 0.64425" .
qed

lemma erf_series_at_arg:
  "0.0313819 \<le> erf_series (404207 / 12876000)" "erf_series (404207 / 12876000) \<le> 0.031382"
proof -
  have "(0.0313819 :: real) \<le> 404207 / 12876000 - (404207 / 12876000)^3 / 3"
    by (simp add: power_divide)
  also have "\<dots> \<le> erf_series (404207 / 12876000)"
    by (rule erf_series_lower2) simp_all
  finally show "0.0313819 \<le> erf_series (404207 / 12876000)" .
  have "erf_series (404207 / 12876000)
      \<le> 404207 / 12876000 - (404207 / 12876000)^3 / 3 + (404207 / 12876000)^5 / 10"
    by (rule erf_series_upper3) simp_all
  also have "\<dots> \<le> (0.031382 :: real)"
    by (simp add: power_divide)
  finally show "erf_series (404207 / 12876000) \<le> 0.031382" .
qed

lemma erf_at_arg: "0.03541 \<le> erf (404207 / 12876000)" "erf (404207 / 12876000) \<le> 0.035411"
proof -
  have "(0.03541 :: real) \<le> 2 / 1.77247 * 0.0313819"
    by simp
  also have "\<dots> \<le> erf (404207 / 12876000)"
    by (rule erf_enclosure(1) [OF _ erf_series_at_arg]) simp
  finally show "0.03541 \<le> erf (404207 / 12876000)" .
  have "erf (404207 / 12876000) \<le> 2 / 1.77245 * 0.031382"
    by (rule erf_enclosure(2) [OF _ erf_series_at_arg]) simp
  also have "\<dots> \<le> (0.035411 :: real)"
    by simp
  finally show "erf (404207 / 12876000) \<le> 0.035411" .
qed

lemma quotient_enclosure:
  fixes u v :: real
  assumes "ulo \<le> u" and "u \<le> uhi" and "vlo \<le> v" and "v \<le> vhi" and "0 < vlo" and "0 \<le> ulo"
  shows "ulo / vhi \<le> u / v" and "u / v \<le> uhi / vlo"
  using assms by (auto intro!: frac_le)

subsection \<open>Real powers between rational powers\<close>







section \<open>The binary64 operations within range\<close>

lemma thresholds:
  "0 < underflow_threshold" "underflow_threshold < float_min" "0 < float_min"
  "float_min \<le> 1 / 1000" "1000 \<le> float_max" "float_max < overflow_threshold"
  by (simp_all add: underflow_threshold_def float_min_def float_max_def overflow_threshold_def)

lemma to_float_normal: "normal r \<Longrightarrow> to_float r = Fin r"
  using thresholds by (auto simp: normal_def to_float_def)

lemma to_float_zero: "to_float 0 = Fin 0"
  using thresholds by (simp add: to_float_def)

lemma to_float_in_range: "in_range r \<Longrightarrow> to_float r = Fin r"
  by (auto simp: in_range_def to_float_normal to_float_zero)

lemma to_float_overflow: "overflow_threshold \<le> r \<Longrightarrow> to_float r = PInf"
  by (simp add: to_float_def)

lemma to_float_finite:
  assumes "\<bar>r\<bar> < overflow_threshold"
  shows "\<exists>w. to_float r = Fin w"
proof -
  have "\<not> overflow_threshold \<le> r" "\<not> r \<le> - overflow_threshold"
    using assms by linarith+
  then show ?thesis
    by (simp add: to_float_def)
qed

lemma to_float_cases: "to_float r = Fin w \<Longrightarrow> w = 0 \<or> w = r"
  by (auto simp: to_float_def split: if_splits)

lemma normal_between:
  assumes "1 / 1000 \<le> r" and "r \<le> 1000"
  shows "normal r"
  using assms thresholds by (simp add: normal_def)

lemma normal_abs_between:
  assumes "1 / 1000 \<le> \<bar>r\<bar>" and "\<bar>r\<bar> \<le> 1000"
  shows "in_range r"
  using assms thresholds by (simp add: in_range_def normal_def)

lemma reciprocal_below_overflow:
  assumes "float_min \<le> y"
  shows "\<bar>1 / y\<bar> < overflow_threshold"
proof -
  have "1 / y \<le> 1 / float_min"
    using assms thresholds(3) by (intro divide_left_mono) simp_all
  moreover have "1 / float_min < overflow_threshold"
    by (simp add: float_min_def overflow_threshold_def)
  moreover have "0 < y"
    using assms thresholds(3) by linarith
  ultimately show ?thesis
    by simp
qed

lemma f_div_normal: "y \<noteq> 0 \<Longrightarrow> normal (x / y) \<Longrightarrow> f_div (Fin x) (Fin y) = Fin (x / y)"
  by (simp add: f_div_def to_float_normal)




lemma num_truediv_in_range:
  assumes "val a = Fin x" and "val b = Fin y" and "y \<noteq> 0" and "in_range (x / y)"
  shows "\<exists>q. num_truediv a b = Inr q \<and> val q = Fin (x / y)"
  using assms by (simp add: num_truediv_def f_div_def to_float_in_range val_def [of "Py _"] val_def [of "Np _"])


lemma num_truediv_numpy_in_range:
  assumes "val a = Fin x" and "y \<noteq> 0" and "in_range (x / y)"
  shows "num_truediv a (Np (Fin y)) = Inr (Np (Fin (x / y)))"
  using assms by (simp add: num_truediv_def is_py_def val_def [of "Np _"] f_div_def to_float_in_range)

lemma num_sub_in_range:
  assumes "val a = Fin x" and "val b = Fin y" and "in_range (x - y)"
  shows "val (num_sub a b) = Fin (x - y)"
  using assms by (simp add: num_sub_def f_sub_def to_float_in_range val_def [of "Py _"] val_def [of "Np _"])

lemma sp_erfc_in_range:
  assumes "val a = Fin x" and "in_range (erfc x)"
  shows "sp_erfc a = Np (Fin (erfc x))"
  using assms by (simp add: sp_erfc_def f_erfc_def to_float_in_range)


lemma num_mul_numpy_in_range:
  assumes "in_range (x * y)"
  shows "num_mul (Np (Fin x)) (Np (Fin y)) = Np (Fin (x * y))"
  using assms by (simp add: num_mul_def is_py_def val_def f_mul_def to_float_in_range)




section \<open>The capacity model\<close>

lemma calculo_capacidade_value:
  assumes "ik \<noteq> 0" and "n \<noteq> 0"
  shows "calculo_capacidade Cm i ik n = Inr ((Cm / erfc (- n)) * erfc (((i / ik) - 1) * n))"
  using assms by (simp add: calculo_capacidade_def py_div_def and_then_def)




text \<open>
  C6. For every \<open>Cm > 0\<close>, \<open>ik > 0\<close> and \<open>n > 0\<close>, the capacity at \<open>i = ik\<close> is
  \<open>Cm / erfc(-n)\<close>: the argument of \<open>erfc\<close> is zero there and \<open>erfc(0) = 1\<close>.
\<close>

theorem capacity_at_ik:
  assumes "0 < Cm" and "0 < ik" and "0 < n"
  shows "calculo_capacidade Cm ik ik n = Inr (Cm / erfc (- n))"
  using assms by (simp add: calculo_capacidade_value erfc_zero)

theorem capacity_at_ik_witness:
  "(0::real) < 61.285 \<and> (0::real) < 321.9 \<and> (0::real) < 0.653
   \<and> calculo_capacidade 61.285 321.9 321.9 0.653 = Inr (61.285 / erfc (- 0.653))"
  using capacity_at_ik [of "61.285" "321.9" "0.653"] by simp



text \<open>
  C4. At \<open>Cm = 61.285\<close>, \<open>i = 5 * 61.285\<close>, \<open>ik = 321.9\<close> and \<open>n = 0.653\<close> the call returns
  a capacity within \<open>0.001\<close> of \<open>38.5923\<close>.
\<close>

theorem capacity_docstring_example:
  "\<exists>c. calculo_capacidade 61.285 (5 * 61.285) 321.9 0.653 = Inr c \<and> \<bar>c - 38.5923\<bar> \<le> 0.001"
proof -
  let ?u = "61.285 * (1 + erf (404207 / 12876000))"
  let ?v = "1 + erf 0.653"
  have arg: "(((5 * 61.285) / 321.9) - 1) * 0.653 = - (404207 / 12876000 :: real)"
    by simp
  have "calculo_capacidade 61.285 (5 * 61.285) 321.9 0.653
      = Inr ((61.285 / erfc (- 0.653)) * erfc ((((5 * 61.285) / 321.9) - 1) * 0.653))"
    by (rule calculo_capacidade_value) simp_all
  also have "(61.285 / erfc (- 0.653)) * erfc ((((5 * 61.285) / 321.9) - 1) * 0.653) = ?u / ?v"
    unfolding arg by (simp add: erfc_def erf_minus)
  finally have val: "calculo_capacidade 61.285 (5 * 61.285) 321.9 0.653 = Inr (?u / ?v)" .
  have u: "61.285 * 1.03541 \<le> ?u" "?u \<le> 61.285 * 1.035411"
    using erf_at_arg by simp_all
  have v: "1.64423 \<le> ?v" "?v \<le> 1.64425"
    using erf_at_n by simp_all
  define c where "c = ?u / ?v"
  have "(38.5913 :: real) \<le> 61.285 * 1.03541 / 1.64425"
    by simp
  also have "\<dots> \<le> ?u / ?v"
    by (rule quotient_enclosure(1) [OF u v]) simp_all
  finally have lo: "38.5913 \<le> c"
    by (simp only: c_def)
  have "?u / ?v \<le> 61.285 * 1.035411 / 1.64423"
    by (rule quotient_enclosure(2) [OF u v]) simp_all
  also have "\<dots> \<le> (38.5933 :: real)"
    by simp
  finally have hi: "c \<le> 38.5933"
    by (simp only: c_def)
  have "\<bar>c - 38.5923\<bar> \<le> 0.001"
    by (rule abs_diff_le) (use lo hi in simp_all)
  moreover have "calculo_capacidade 61.285 (5 * 61.285) 321.9 0.653 = Inr c"
    using val by (simp only: c_def)
  ultimately show ?thesis
    by blast
qed

subsection \<open>The capacity on typed numbers\<close>

lemma capacity_scale_finite:
  assumes "0 < y" and "\<bar>c\<bar> < overflow_threshold"
  shows "\<exists>w. f_div (Fin c) (f_erfc (f_neg (Fin y))) = Fin w"
proof -
  have e: "1 < erfc (- y)"
    using assms(1) by (rule erfc_minus_gt_one)
  have u: "underflow_threshold < 1"
    using thresholds by simp
  show ?thesis
  proof (cases "overflow_threshold \<le> erfc (- y)")
    case True
    then show ?thesis
      by (simp add: f_neg_def f_erfc_def to_float_def f_div_def)
  next
    case False
    with e u have t: "to_float (erfc (- y)) = Fin (erfc (- y))"
      by (simp add: to_float_def)
    have "\<bar>c\<bar> * 1 \<le> \<bar>c\<bar> * erfc (- y)"
      using e by (intro mult_left_mono) simp_all
    then have "\<bar>c\<bar> / erfc (- y) \<le> \<bar>c\<bar>"
      using e by (simp add: pos_divide_le_eq)
    moreover have "\<bar>erfc (- y)\<bar> = erfc (- y)"
      using e by simp
    ultimately have "\<bar>c / erfc (- y)\<bar> \<le> \<bar>c\<bar>"
      by (simp only: abs_divide)
    with assms have "\<bar>c / erfc (- y)\<bar> < overflow_threshold"
      by simp
    then have "\<exists>w. to_float (c / erfc (- y)) = Fin w"
      by (rule to_float_finite)
    with e show ?thesis
      by (simp add: f_neg_def f_erfc_def t f_div_def)
  qed
qed

lemma calculo_capacidade_num_value:
  assumes Cm: "val Cm = Fin c" and i: "val i = Fin x" and ik: "val ik = Fin k" and n: "val n = Fin y"
    and k: "k \<noteq> 0" and y: "0 < y" and rng: "capacidade_in_range c x k y"
  shows "calculo_capacidade_num Cm i ik n
     = Inr (Np (Fin ((c / erfc (- y)) * erfc ((x / k - 1) / (1 / y)))))"
proof -
  from rng have r1: "in_range (erfc (- y))" and r2: "in_range (c / erfc (- y))"
    and r3: "in_range (x / k)" and r4: "in_range (x / k - 1)" and r5: "in_range (1 / y)"
    and r6: "in_range ((x / k - 1) / (1 / y))" and r7: "in_range (erfc ((x / k - 1) / (1 / y)))"
    and r8: "in_range ((c / erfc (- y)) * erfc ((x / k - 1) / (1 / y)))"
    by (simp_all only: capacidade_in_range_def)
  have e: "erfc (- y) \<noteq> 0"
    using erfc_minus_gt_one [OF y] by simp
  have ry: "1 / y \<noteq> 0"
    using y by simp
  have nn: "val (num_neg n) = Fin (- y)"
    using n by (cases n) (simp_all add: num_neg_def val_def f_neg_def)
  have a: "num_truediv Cm (sp_erfc (num_neg n)) = Inr (Np (Fin (c / erfc (- y))))"
    unfolding sp_erfc_in_range [OF nn r1] by (rule num_truediv_numpy_in_range [OF Cm e r2])
  from num_truediv_in_range [OF i ik k r3]
  obtain q where q: "num_truediv i ik = Inr q" "val q = Fin (x / k)"
    by blast
  have one: "val (Py (Fin 1)) = Fin 1"
    by (simp add: val_def)
  have s: "val (num_sub q (Py (Fin 1))) = Fin (x / k - 1)"
    by (rule num_sub_in_range [OF q(2) one r4])
  from num_truediv_in_range [OF one n _ r5] y
  obtain r where r: "num_truediv (Py (Fin 1)) n = Inr r" "val r = Fin (1 / y)"
    by auto
  from num_truediv_in_range [OF s r(2) ry r6]
  obtain z where z: "num_truediv (num_sub q (Py (Fin 1))) r = Inr z"
    "val z = Fin ((x / k - 1) / (1 / y))"
    by blast
  have m: "num_mul (Np (Fin (c / erfc (- y)))) (sp_erfc z)
      = Np (Fin ((c / erfc (- y)) * erfc ((x / k - 1) / (1 / y))))"
    unfolding sp_erfc_in_range [OF z(2) r7] by (rule num_mul_numpy_in_range [OF r8])
  have "calculo_capacidade_num Cm i ik n = Inr (num_mul (Np (Fin (c / erfc (- y)))) (sp_erfc z))"
    by (simp only: calculo_capacidade_num_def and_then_def a q(1) r(1) z(1) sum.case)
  then show ?thesis
    by (simp only: m)
qed

lemma calculo_capacidade_num_agrees:
  assumes "val Cm = Fin c" and "val i = Fin x" and "val ik = Fin k" and "val n = Fin y"
    and "k \<noteq> 0" and "0 < y" and "capacidade_in_range c x k y"
  shows "\<exists>v. calculo_capacidade c x k y = Inr v \<and> calculo_capacidade_num Cm i ik n = Inr (Np (Fin v))"
proof -
  have "(x / k - 1) / (1 / y) = (x / k - 1) * y"
    by simp
  then have "calculo_capacidade c x k y = Inr ((c / erfc (- y)) * erfc ((x / k - 1) / (1 / y)))"
    using assms(5,6) by (simp add: calculo_capacidade_value)
  with calculo_capacidade_num_value [OF assms] show ?thesis
    by simp
qed

lemma capacidade_example_in_range: "capacidade_in_range 61.285 (5 * 61.285) 321.9 0.653"
proof -
  define e where "e = erfc (- 0.653)"
  define w where "w = erfc ((5 * 61.285 / 321.9 - 1) / (1 / 0.653))"
  have arg: "(5 * 61.285 / 321.9 - 1) / (1 / 0.653) = - (404207 / 12876000 :: real)"
    by simp
  have e: "1.64423 \<le> e" "e \<le> 1.64425"
    using erf_at_n by (simp_all add: e_def erfc_def erf_minus)
  have w: "1.03541 \<le> w" "w \<le> 1.035411"
    using erf_at_arg unfolding w_def arg by (simp_all add: erfc_def erf_minus)
  define a where "a = 61.285 / e"
  have q: "1 \<le> a" "a \<le> 61.285"
    using e by (simp_all add: a_def field_simps)
  have "1 * 1 \<le> a * w"
    by (rule mult_mono) (use q w in simp_all)
  moreover have "a * w \<le> 61.285 * 2"
    by (rule mult_mono) (use q w in simp_all)
  ultimately have m: "1 / 1000 \<le> \<bar>a * w\<bar>" "\<bar>a * w\<bar> \<le> 1000"
    by simp_all
  have "in_range e"
    using e by (intro normal_abs_between) simp_all
  moreover have "in_range a"
    using q by (intro normal_abs_between) simp_all
  moreover have "in_range (5 * 61.285 / 321.9)" "in_range (5 * 61.285 / 321.9 - 1)"
    "in_range (1 / 0.653)" "in_range ((5 * 61.285 / 321.9 - 1) / (1 / 0.653))"
    by (rule normal_abs_between; simp)+
  moreover have "in_range w"
    using w by (intro normal_abs_between) simp_all
  moreover have "in_range (a * w)"
    using m by (rule normal_abs_between)
  ultimately show ?thesis
    unfolding capacidade_in_range_def a_def e_def w_def by blast
qed

lemma calculo_capacidade_num_example:
  "\<exists>v. calculo_capacidade 61.285 (5 * 61.285) 321.9 0.653 = Inr v
     \<and> calculo_capacidade_num (Py (Fin 61.285)) (Py (Fin (5 * 61.285))) (Py (Fin 321.9)) (Py (Fin 0.653))
         = Inr (Np (Fin v))
     \<and> calculo_capacidade_num (Np (Fin 61.285)) (Py (Fin (5 * 61.285))) (Np (Fin 321.9)) (Np (Fin 0.653))
         = Inr (Np (Fin v))"
proof -
  have v: "calculo_capacidade 61.285 (5 * 61.285) 321.9 0.653
      = Inr ((61.285 / erfc (- 0.653)) * erfc ((5 * 61.285 / 321.9 - 1) / (1 / 0.653)))"
    by (simp add: calculo_capacidade_value)
  have "calculo_capacidade_num (Py (Fin 61.285)) (Py (Fin (5 * 61.285))) (Py (Fin 321.9)) (Py (Fin 0.653))
      = Inr (Np (Fin ((61.285 / erfc (- 0.653)) * erfc ((5 * 61.285 / 321.9 - 1) / (1 / 0.653)))))"
    by (rule calculo_capacidade_num_value [OF _ _ _ _ _ _ capacidade_example_in_range])
      (simp_all add: val_def)
  moreover
  have "calculo_capacidade_num (Np (Fin 61.285)) (Py (Fin (5 * 61.285))) (Np (Fin 321.9)) (Np (Fin 0.653))
      = Inr (Np (Fin ((61.285 / erfc (- 0.653)) * erfc ((5 * 61.285 / 321.9 - 1) / (1 / 0.653)))))"
    by (rule calculo_capacidade_num_value [OF _ _ _ _ _ _ capacidade_example_in_range])
      (simp_all add: val_def)
  ultimately show ?thesis
    using v by blast
qed







section \<open>The parameter estimator\<close>

text \<open>
  \<open>modelo\<close> computes for each current what \<open>calculo_capacidade_num\<close> returns on
  \<open>numpy.float64\<close> arguments, also where \<open>n\<close> or \<open>ik\<close> is zero.
\<close>

lemma modelo_calculo_capacidade_num:
  "map (\<lambda>v. Inr (Np v)) (modelo (Cm, n, ik) is)
     = map (\<lambda>i. calculo_capacidade_num (Np (Fin Cm)) (Np (Fin i)) (Np (Fin ik)) (Np (Fin n))) is"
  by (simp add: modelo_def calculo_capacidade_num_def and_then_def num_truediv_def num_sub_def
      num_mul_def num_neg_def sp_erfc_def is_py_def val_def)

lemma modelo_zero_exponent: "modelo (61.285, 0, 321.9) [306.425] = [Fin 61.285]"
proof -
  have "normal 1" "normal 61.285" "normal (306.425 / 321.9)" "normal (306.425 / 321.9 - 1)"
    "normal (61.285 * 1)"
    using thresholds by (simp_all add: normal_def)
  then have "to_float 1 = Fin 1" "to_float 61.285 = Fin 61.285"
    "to_float (306.425 / 321.9) = Fin (306.425 / 321.9)"
    "to_float (306.425 / 321.9 - 1) = Fin (306.425 / 321.9 - 1)"
    "to_float (61.285 * 1) = Fin (61.285 * 1)"
    by (simp_all only: to_float_normal)
  then show ?thesis
    by (simp add: modelo_def f_neg_def f_erfc_def erfc_zero f_div_def f_sub_def f_mul_def)
qed

lemma modelo_zero_ik: "modelo (61.285, 0.653, 0) [306.425] = [Fin 0]"
proof -
  obtain w where w: "f_div (Fin 61.285) (f_erfc (f_neg (Fin 0.653))) = Fin w"
    using capacity_scale_finite [of "0.653" "61.285"] thresholds by auto
  obtain u where u: "to_float (1 / 0.653) = Fin u"
    using to_float_finite [OF reciprocal_below_overflow [of "0.653"]] thresholds by auto
  with to_float_cases [OF u] have "0 \<le> u"
    by auto
  then show ?thesis
    using w u by (simp add: modelo_def f_div_def f_sub_def f_erfc_def f_mul_def to_float_zero)
qed

text \<open>
  C3. The result of \<open>encontrar_parametros\<close> is the same for every two pairs of
  arguments: the observed capacities, the currents and the initial guess that reach the
  solver are the constants assigned in the body. The call in \<open>main\<close>, which passes the
  array of currents twice, is one such pair.
\<close>

theorem encontrar_parametros_ignores_arguments:
  "encontrar_parametros least_squares C_observado i
     = encontrar_parametros least_squares C_observado' i'"
  by (simp add: encontrar_parametros_def)

text \<open>
  C9 (as amended). \<open>encontrar_parametros\<close> checks no shape: whatever the lengths of the
  two arrays it is given, it runs the solver on its own three currents and three
  capacities from the initial guess \<open>(100, 0.5, 300)\<close> and returns the outcome of the
  solver.
\<close>

theorem encontrar_parametros_no_shape_check:
  "encontrar_parametros least_squares C_observado i
     = least_squares residuals (100, 0.5, 300)
         ([612.85, 459.6375, 306.425],
          [15.054043042538622, 25.81989538243598, 38.59230288240648])"
  by (simp add: encontrar_parametros_def)

text \<open>
  One capacity against two currents, and a solver that returns what it is called with:
  the call is not rejected, the solver runs on the built-in data.
\<close>

theorem encontrar_parametros_shape_counterexample:
  "encontrar_parametros (\<lambda>f x0 args. Inr (x0, args)) [1] [1, 2]
     = (Inr ((100, 0.5, 300),
             ([612.85, 459.6375, 306.425],
              [15.054043042538622, 25.81989538243598, 38.59230288240648])) :: py_error + _)"
  by (simp add: encontrar_parametros_def)

section \<open>The runtime estimator\<close>









lemma peukert_overflow_before_zero:
  "peukert (Py (Fin 111)) (Py (Fin 100)) (Py (Fin 0)) (Py (Fin 6)) = Inl OverflowError"
proof -
  have "normal (1 / 100)" "normal (6 / (1 / 100))"
    by (rule normal_between; simp)+
  then have d: "f_div (Fin 1) (Fin 100) = Fin (1 / 100)" "f_div (Fin 6) (Fin (1 / 100)) = Fin (6 / (1 / 100))"
    by (simp_all add: f_div_normal)
  have "overflow_threshold \<le> (6 / (1 / 100)) powr (111 :: real)"
    by (simp add: overflow_threshold_def)
  then have "f_pow (Fin (6 / (1 / 100))) (Fin 111) = PInf"
    by (simp add: f_pow_def to_float_overflow)
  then have "py_pow (Fin (6 / (1 / 100))) (Fin 111) = Inl OverflowError"
    by (simp add: py_pow_def integral_def)
  then show ?thesis
    by (simp add: peukert_def and_then_def num_truediv_def num_pow_def is_py_def val_def d)
qed




end
